theory Spec2Isabelle
  imports Main "HOL-Library.Char_ord" "HOL-Library.List_Lexorder" "HOL-Library.Multiset"
begin

section \<open>Python values used by the scraper\<close>

text \<open>
  The exceptions that the modelled functions raise. \<open>HelperError\<close> stands for whatever
  \<open>helper.transform_datetime_str\<close> raises on a text it cannot parse.
\<close>

datatype py_error = ValueError | KeyError | IndexError | HelperError

subsection \<open>Strings\<close>

text \<open>The characters removed by \<open>str.strip()\<close> and separating the tokens of \<open>str.split()\<close>.\<close>

definition is_space :: "char \<Rightarrow> bool" where
  "is_space c = (c \<in> set [CHR '' '', CHR 0x09, CHR 0x0A, CHR 0x0B, CHR 0x0C, CHR 0x0D])"

definition py_strip :: "string \<Rightarrow> string" where
  "py_strip s = rev (dropWhile is_space (rev (dropWhile is_space s)))"

text \<open>\<open>sep.join(xs)\<close>\<close>

fun py_join :: "string \<Rightarrow> string list \<Rightarrow> string" where
  "py_join sep [] = []"
| "py_join sep [x] = x"
| "py_join sep (x # y # ys) = x @ sep @ py_join sep (y # ys)"

text \<open>\<open>s.replace("\n", " ")\<close>\<close>

definition replace_newlines :: "string \<Rightarrow> string" where
  "replace_newlines s = map (\<lambda>c. if c = CHR 0x0A then CHR '' '' else c) s"

text \<open>\<open>p in s\<close> for two strings: \<open>p\<close> occurs in \<open>s\<close> as a contiguous run.\<close>

fun str_contains :: "string \<Rightarrow> string \<Rightarrow> bool" where
  "str_contains [] p = (p = [])"
| "str_contains (c # cs) p = (take (length p) (c # cs) = p \<or> str_contains cs p)"

text \<open>
  \<open>s.split()\<close>: the maximal runs of non-whitespace characters, in order. The first
  argument is the token being read.
\<close>

fun py_split_from :: "string \<Rightarrow> string \<Rightarrow> string list" where
  "py_split_from cur [] = (if cur = [] then [] else [cur])"
| "py_split_from cur (c # cs) =
     (if is_space c then (if cur = [] then py_split_from [] cs else cur # py_split_from [] cs)
      else py_split_from (cur @ [c]) cs)"

definition py_split :: "string \<Rightarrow> string list" where
  "py_split s = py_split_from [] s"

subsection \<open>Integers as decimal text\<close>

definition digit_char :: "nat \<Rightarrow> char" where
  "digit_char n = ''0123456789'' ! n"

definition is_digit :: "char \<Rightarrow> bool" where
  "is_digit c = (c \<in> set ''0123456789'')"

definition digit_val :: "char \<Rightarrow> nat" where
  "digit_val c = of_char c - 48"

text \<open>\<open>f"{n}"\<close> for a non-negative integer: decimal, no padding.\<close>

function str_nat :: "nat \<Rightarrow> string" where
  "str_nat n = (if n < 10 then [digit_char n] else str_nat (n div 10) @ [digit_char (n mod 10)])"
  by pat_completeness auto
termination
  by (relation "measure id") auto

declare str_nat.simps [simp del]

text \<open>Left padding with zeros to a width, as \<open>%m\<close>, \<open>%d\<close> and \<open>%Y\<close> do.\<close>

definition zero_pad :: "nat \<Rightarrow> string \<Rightarrow> string" where
  "zero_pad w s = replicate (w - length s) CHR ''0'' @ s"

text \<open>
  \<open>int(s)\<close> on a string: surrounding whitespace is ignored, one sign is allowed, then
  decimal digits, where single underscores may separate digits. Anything else raises
  \<open>ValueError\<close>.
\<close>

fun digits_grouped :: "string \<Rightarrow> bool" where
  "digits_grouped [] = False"
| "digits_grouped [c] = is_digit c"
| "digits_grouped (c # d # cs) =
     (is_digit c \<and> (if d = CHR ''_'' then digits_grouped cs else digits_grouped (d # cs)))"

definition digits_value :: "string \<Rightarrow> nat" where
  "digits_value s = foldl (\<lambda>acc c. 10 * acc + digit_val c) 0 (filter is_digit s)"

definition py_int_unsigned :: "string \<Rightarrow> py_error + int" where
  "py_int_unsigned s = (if digits_grouped s then Inr (int (digits_value s)) else Inl ValueError)"

definition py_int :: "string \<Rightarrow> py_error + int" where
  "py_int s =
     (case py_strip s of
        [] \<Rightarrow> Inl ValueError
      | c # cs \<Rightarrow>
          if c = CHR ''-'' then map_sum id uminus (py_int_unsigned cs)
          else if c = CHR ''+'' then py_int_unsigned cs
          else py_int_unsigned (c # cs))"

subsection \<open>Calendar dates\<close>

text \<open>
  \<open>datetime.date\<close>: the constructor accepts exactly the days of the proleptic Gregorian
  calendar with years 1 to 9999 and raises \<open>ValueError\<close> otherwise.
\<close>

record date =
  year :: nat
  month :: nat
  day :: nat

definition is_leap :: "nat \<Rightarrow> bool" where
  "is_leap y = (y mod 4 = 0 \<and> (y mod 100 \<noteq> 0 \<or> y mod 400 = 0))"

definition days_in_month :: "nat \<Rightarrow> nat \<Rightarrow> nat" where
  "days_in_month y m =
     (if m = 2 then (if is_leap y then 29 else 28)
      else if m \<in> {4, 6, 9, 11} then 30 else 31)"

definition valid_date :: "date \<Rightarrow> bool" where
  "valid_date d =
     (1 \<le> year d \<and> year d \<le> 9999 \<and> 1 \<le> month d \<and> month d \<le> 12 \<and>
      1 \<le> day d \<and> day d \<le> days_in_month (year d) (month d))"

definition date_new :: "int \<Rightarrow> int \<Rightarrow> int \<Rightarrow> py_error + date" where
  "date_new y m d =
     (if 0 \<le> y \<and> 0 \<le> m \<and> 0 \<le> d \<and>
         valid_date \<lparr>year = nat y, month = nat m, day = nat d\<rparr>
      then Inr \<lparr>year = nat y, month = nat m, day = nat d\<rparr>
      else Inl ValueError)"

text \<open>
  \<open>date_.strftime("%Y-%m-%d")\<close>, with the year written in four digits as the Python
  documentation gives it.
\<close>

definition strftime_ymd :: "date \<Rightarrow> string" where
  "strftime_ymd d =
     zero_pad 4 (str_nat (year d)) @ ''-'' @ zero_pad 2 (str_nat (month d)) @ ''-'' @
     zero_pad 2 (str_nat (day d))"

section \<open>Archive URL\<close>

definition categories :: "string list" where
  "categories = [''wirtschaft'', ''inland'', ''ausland'']"

definition create_url_for_news_archive :: "date \<Rightarrow> string \<Rightarrow> py_error + string" where
  "create_url_for_news_archive date0 category =
     (let date_str = strftime_ymd date0 in
      if category \<in> set categories then
        Inr (''https://www.tagesschau.de/archiv/?datum='' @ date_str @ ''&ressort='' @ category)
      else if category = ''all'' then
        Inr (''https://www.tagesschau.de/archiv/?datum='' @ date_str)
      else Inl ValueError)"

section \<open>Date in the archive headline\<close>

text \<open>
  \<open>xs[i]\<close> and \<open>xs.index(x)\<close> on a Python list: the first raises \<open>IndexError\<close> out of
  range, the second returns the first position of \<open>x\<close> and raises \<open>ValueError\<close> when
  there is none.
\<close>

definition list_get :: "'a list \<Rightarrow> nat \<Rightarrow> py_error + 'a" where
  "list_get xs i = (if i < length xs then Inr (xs ! i) else Inl IndexError)"

fun list_index :: "'a list \<Rightarrow> 'a \<Rightarrow> py_error + nat" where
  "list_index [] x = Inl ValueError"
| "list_index (y # ys) x =
     (if y = x then Inr 0 else map_sum id Suc (list_index ys x))"

text \<open>
  The table \<open>constants.german_month_names\<close> is defined outside \<open>tagesschau.py\<close>, so
  both conversions take it as their first argument \<open>names\<close>: a list that is read at the
  month number and searched with \<open>index\<close>.
\<close>

definition transform_date_to_date_in_headline :: "string list \<Rightarrow> date \<Rightarrow> py_error + string" where
  "transform_date_to_date_in_headline names date0 =
     (case list_get names (month date0) of
        Inl e \<Rightarrow> Inl e
      | Inr name \<Rightarrow> Inr (str_nat (day date0) @ ''. '' @ name @ '' '' @ str_nat (year date0)))"

definition transform_date_in_headline_to_date :: "string list \<Rightarrow> string \<Rightarrow> py_error + date" where
  "transform_date_in_headline_to_date names date_in_headline =
     (case py_split date_in_headline of
        [day_raw, month_raw, year_raw] \<Rightarrow>
          (case py_int (butlast day_raw) of
             Inl e \<Rightarrow> Inl e
           | Inr day_n \<Rightarrow>
               (case list_index names month_raw of
                  Inl e \<Rightarrow> Inl e
                | Inr month_n \<Rightarrow>
                    (case py_int year_raw of
                       Inl e \<Rightarrow> Inl e
                     | Inr year_n \<Rightarrow> date_new year_n (int month_n) day_n)))
      | _ \<Rightarrow> Inl ValueError)"

text \<open>
  Modelled from the spec: the table \<open>constants.german_month_names\<close>, a "fixed 12-name
  calendar table" of German month names. The names stand at the positions 1 to 12, which
  is where \<open>names[month]\<close> reads them, after an empty entry at position 0. (The letter
  a-umlaut of the third name is its two UTF-8 bytes.)
\<close>

definition german_month_names :: "string list" where
  "german_month_names =
     ['''', ''Januar'', ''Februar'', [CHR ''M'', CHR 0xC3, CHR 0xA4, CHR ''r'', CHR ''z''],
      ''April'', ''Mai'', ''Juni'', ''Juli'', ''August'', ''September'', ''Oktober'',
      ''November'', ''Dezember'']"

text \<open>
  What the two conversions need of the table: each of the month numbers 1 to 12 is a
  position of the list, and the entry there is one word (not empty, no whitespace) that
  occurs at no earlier position, so that \<open>index\<close> finds it at the month number.
\<close>

definition month_table_usable :: "string list \<Rightarrow> bool" where
  "month_table_usable names =
     (\<forall>m \<in> {1..12}.
        m < length names \<and> names ! m \<noteq> [] \<and> (\<forall>c \<in> set (names ! m). \<not> is_space c) \<and>
        names ! m \<notin> set (take m names))"

section \<open>Parsed documents\<close>

text \<open>
  A parsed page as BeautifulSoup gives it: a text node (\<open>NavigableString\<close>) or an element
  (\<open>Tag\<close>) with its name, its attributes and its children. The parser stores \<open>class\<close> as
  the list of class names and every other attribute used here as one string. The document
  itself is an element whose children are the top-level nodes.
\<close>

datatype attr_value = AttrStr string | AttrList "string list"

datatype node = NavigableString string | Tag string "(string \<times> attr_value) list" "node list"

fun is_tag :: "node \<Rightarrow> bool" where
  "is_tag (Tag n a cs) = True"
| "is_tag (NavigableString s) = False"

fun tag_name :: "node \<Rightarrow> string option" where
  "tag_name (Tag n a cs) = Some n"
| "tag_name (NavigableString s) = None"

text \<open>\<open>tag.get(key)\<close>: the attribute, or \<open>None\<close>.\<close>

fun tag_get :: "node \<Rightarrow> string \<Rightarrow> attr_value option" where
  "tag_get (Tag n a cs) key = map_of a key"
| "tag_get (NavigableString s) key = None"

text \<open>All nodes below a node, in document order (a node before its children).\<close>

fun descendants :: "node \<Rightarrow> node list" where
  "descendants (NavigableString s) = []"
| "descendants (Tag n a cs) = concat (map (\<lambda>c. c # descendants c) cs)"

text \<open>
  How a search for \<open>class_=c\<close> compares an attribute value with the string \<open>c\<close>: a list of
  classes matches when one of them is \<open>c\<close> or when the classes joined by single spaces are
  \<open>c\<close>; a missing attribute never matches.
\<close>

fun class_matches :: "attr_value option \<Rightarrow> string \<Rightarrow> bool" where
  "class_matches None c = False"
| "class_matches (Some (AttrStr s)) c = (s = c)"
| "class_matches (Some (AttrList cls)) c = (c \<in> set cls \<or> py_join '' '' cls = c)"

definition find_all :: "node \<Rightarrow> node list" where
  "find_all soup = filter is_tag (descendants soup)"

definition find_all_name :: "node \<Rightarrow> string \<Rightarrow> node list" where
  "find_all_name soup nm = filter (\<lambda>e. tag_name e = Some nm) (descendants soup)"

definition find_all_class :: "node \<Rightarrow> string \<Rightarrow> node list" where
  "find_all_class soup c =
     filter (\<lambda>e. is_tag e \<and> class_matches (tag_get e ''class'') c) (descendants soup)"

text \<open>\<open>find\<close> is the first result of \<open>find_all\<close>, or \<open>None\<close>.\<close>

definition first_of :: "'a list \<Rightarrow> 'a option" where
  "first_of xs = (case xs of [] \<Rightarrow> None | x # _ \<Rightarrow> Some x)"

definition find_name :: "node \<Rightarrow> string \<Rightarrow> node option" where
  "find_name soup nm = first_of (find_all_name soup nm)"

definition find_class :: "node \<Rightarrow> string \<Rightarrow> node option" where
  "find_class soup c = first_of (find_all_class soup c)"

text \<open>The text nodes below an element, in document order.\<close>

fun all_strings :: "node \<Rightarrow> string list" where
  "all_strings (NavigableString s) = [s]"
| "all_strings (Tag n a cs) = concat (map all_strings cs)"

text \<open>\<open>element.get_text()\<close>\<close>

definition get_text :: "node \<Rightarrow> string" where
  "get_text e = concat (all_strings e)"

text \<open>
  \<open>element.get_text(strip=True, separator=sep)\<close>: every text node stripped, the empty
  ones left out, the rest joined by \<open>sep\<close>.
\<close>

definition get_text_strip :: "string \<Rightarrow> node \<Rightarrow> string" where
  "get_text_strip sep e = py_join sep (filter (\<lambda>s. s \<noteq> []) (map py_strip (all_strings e)))"

section \<open>Dictionaries\<close>

text \<open>
  A Python \<open>dict\<close> from strings to strings, as the list of its items in insertion order:
  assigning to a key that is present keeps its place.
\<close>

type_synonym dict = "(string \<times> string) list"

fun dict_set :: "dict \<Rightarrow> string \<Rightarrow> string \<Rightarrow> dict" where
  "dict_set [] k v = [(k, v)]"
| "dict_set ((k', v') # d) k v = (if k' = k then (k, v) # d else (k', v') # dict_set d k v)"

definition dict_keys :: "dict \<Rightarrow> string set" where
  "dict_keys d = set (map fst d)"

text \<open>\<open>d[k]\<close> raises \<open>KeyError\<close> for a missing key.\<close>

definition dict_get :: "dict \<Rightarrow> string \<Rightarrow> py_error + string" where
  "dict_get d k = (case map_of d k of None \<Rightarrow> Inl KeyError | Some v \<Rightarrow> Inr v)"

text \<open>\<open>d.update(other)\<close>\<close>

definition dict_update :: "dict \<Rightarrow> dict \<Rightarrow> dict" where
  "dict_update d other = fold (\<lambda>(k, v) acc. dict_set acc k v) other d"

section \<open>Collaborators\<close>

text \<open>
  The modules \<open>retrieve\<close> and \<open>helper\<close> are outside \<open>tagesschau.py\<close>. Their
  functions are the fields of an environment: fetching a page either gives the parsed
  document or raises; hashing a string always succeeds; parsing the date text of a teaser
  may raise. A fetch error carries the text that \<open>print\<close> shows for it.
\<close>

datatype fetch_error =
    TooManyRedirects
  | GaiError string
  | ConnectionError string
  | OtherError string

record env =
  get_soup_from_url :: "string \<Rightarrow> fetch_error + node"
  get_hash_from_string :: "string \<Rightarrow> string"
  transform_datetime_str :: "string \<Rightarrow> py_error + string"

text \<open>What the code writes out: lines of \<open>print\<close> and the debugging calls of \<open>ic\<close>.\<close>

datatype log_entry = Print string | Ic string

section \<open>Article tags\<close>

text \<open>The list \<open>tags\<close> that \<open>extract_article_tags\<close> builds before sorting it.\<close>

definition article_tag_texts :: "node \<Rightarrow> string list" where
  "article_tag_texts article_soup =
     (case find_class article_soup ''taglist'' of
        Some tags_group \<Rightarrow>
          map (get_text_strip '''') (find_all_class tags_group ''tag-btn tag-btn--light-grey'')
      | None \<Rightarrow> [])"

definition extract_article_tags :: "node \<Rightarrow> dict" where
  "extract_article_tags article_soup =
     (let tags = article_tag_texts article_soup in [(''tags'', py_join '','' (sort tags))])"

section \<open>Teasers\<close>

definition required_attributes :: "string set" where
  "required_attributes = {''date'', ''headline'', ''shorttext'', ''link''}"

definition field_names_text :: "string list" where
  "field_names_text = [''date'', ''topline'', ''headline'', ''shorttext'']"

definition field_names_link :: "string list" where
  "field_names_link = [''link'']"

definition name_html_mapping :: "(string \<times> string) list" where
  "name_html_mapping = map (\<lambda>key. (key, ''teaser-right__'' @ key)) (field_names_text @ field_names_link)"

text \<open>
  The loop of \<open>extract_info_from_teaser\<close> over the remaining items of the mapping, with
  the dictionary \<open>self.teaser_info\<close> built so far.
\<close>

fun extract_fields :: "node \<Rightarrow> (string \<times> string) list \<Rightarrow> dict \<Rightarrow> py_error + dict" where
  "extract_fields teaser_soup [] info = Inr info"
| "extract_fields teaser_soup ((field_name, html_class_name) # rest) info =
     (case find_class teaser_soup html_class_name of
        None \<Rightarrow> extract_fields teaser_soup rest info
      | Some tag \<Rightarrow>
          if field_name \<in> set field_names_text then
            extract_fields teaser_soup rest (dict_set info field_name (get_text_strip '' '' tag))
          else if field_name \<in> set field_names_link then
            (case tag_get tag ''href'' of
               Some (AttrStr href) \<Rightarrow>
                 if \<not> str_contains href ''www.'' then
                   extract_fields teaser_soup rest
                     (dict_set info field_name (''https://www.tagesschau.de'' @ href))
                 else extract_fields teaser_soup rest (dict_set info field_name href)
             | _ \<Rightarrow> Inl ValueError)
          else extract_fields teaser_soup rest info)"

text \<open>A new \<open>Teaser\<close> starts with an empty \<open>teaser_info\<close>.\<close>

definition extract_info_from_teaser :: "node \<Rightarrow> py_error + dict" where
  "extract_info_from_teaser teaser_soup = extract_fields teaser_soup name_html_mapping []"

text \<open>
  The dictionary that \<open>extract_info_from_teaser\<close> returns is the object
  \<open>self.teaser_info\<close> itself, and the page loop hands that same object from one method
  to the next. So \<open>teaser_info\<close> and \<open>self.teaser_info\<close> are one dictionary throughout,
  \<open>self.teaser_info.update(teaser_info)\<close> changes nothing, and the methods are functions
  of that one dictionary.

  The lookup of the link is outside the \<open>try\<close>; every exception raised inside it is
  caught by one of the four handlers, each of which prints one line.
\<close>

definition enrich_teaser_info_with_article_tags ::
    "'a env_scheme \<Rightarrow> dict \<Rightarrow> log_entry list \<times> (py_error + dict)" where
  "enrich_teaser_info_with_article_tags ev teaser_info =
     (case dict_get teaser_info ''link'' of
        Inl e \<Rightarrow> ([], Inl e)
      | Inr article_link \<Rightarrow>
          (case get_soup_from_url ev article_link of
             Inr article_soup \<Rightarrow>
               ([], Inr (dict_update teaser_info (extract_article_tags article_soup)))
           | Inl TooManyRedirects \<Rightarrow>
               ([Print (''Article not found for link: '' @ article_link @ ''.'')], Inr teaser_info)
           | Inl (GaiError msg) \<Rightarrow> ([Print (''gaierror: '' @ msg)], Inr teaser_info)
           | Inl (ConnectionError msg) \<Rightarrow> ([Print (''ConnectionError: '' @ msg)], Inr teaser_info)
           | Inl (OtherError msg) \<Rightarrow> ([Print (''Error: '' @ msg)], Inr teaser_info)))"

definition process_info :: "'a env_scheme \<Rightarrow> dict \<Rightarrow> py_error + dict" where
  "process_info ev teaser_info =
     (case dict_get teaser_info ''link'' of
        Inl e \<Rightarrow> Inl e
      | Inr link \<Rightarrow>
          (let info1 = dict_set teaser_info ''id'' (get_hash_from_string ev link) in
           case dict_get info1 ''date'' of
             Inl e \<Rightarrow> Inl e
           | Inr date_raw \<Rightarrow>
               (case transform_datetime_str ev date_raw of
                  Inl e \<Rightarrow> Inl e
                | Inr date_val \<Rightarrow> Inr (dict_set info1 ''date'' date_val))))"

definition is_teaser_info_valid :: "dict \<Rightarrow> log_entry list \<times> bool" where
  "is_teaser_info_valid teaser_info =
     (if required_attributes - dict_keys teaser_info = {} then ([], True)
      else ([Ic ''False'', Ic ''teaser_info.keys()''], False))"

section \<open>All teasers of an archive page\<close>

text \<open>
  The loop of \<open>_extract_info_for_all_teaser\<close> over the remaining teaser blocks, with the
  list collected so far and what has been written out so far. Nothing in the loop catches
  an exception of a method, so the first one ends the loop and leaves no list.
\<close>

fun extract_teasers ::
    "'a env_scheme \<Rightarrow> node list \<Rightarrow> dict list \<Rightarrow> log_entry list \<Rightarrow>
     log_entry list \<times> (py_error + dict list)" where
  "extract_teasers ev [] extracted_teaser_list out = (out, Inr extracted_teaser_list)"
| "extract_teasers ev (teaser # rest) extracted_teaser_list out =
     (case extract_info_from_teaser teaser of
        Inl e \<Rightarrow> (out, Inl e)
      | Inr teaser_info \<Rightarrow>
          (case enrich_teaser_info_with_article_tags ev teaser_info of
             (out1, Inl e) \<Rightarrow> (out @ out1, Inl e)
           | (out1, Inr teaser_info_enriched) \<Rightarrow>
               (case process_info ev teaser_info_enriched of
                  Inl e \<Rightarrow> (out @ out1, Inl e)
                | Inr teaser_info_processed \<Rightarrow>
                    (case is_teaser_info_valid teaser_info_processed of
                       (out2, ok) \<Rightarrow>
                         extract_teasers ev rest
                           (if ok then extracted_teaser_list @ [teaser_info_processed]
                            else extracted_teaser_list)
                           (out @ out1 @ out2)))))"

text \<open>
  The result is the list stored under the only key \<open>"teaser"\<close> of the returned
  dictionary, next to what was written out.
\<close>

definition extract_info_for_all_teaser ::
    "'a env_scheme \<Rightarrow> node \<Rightarrow> log_entry list \<times> (py_error + dict list)" where
  "extract_info_for_all_teaser ev soup =
     extract_teasers ev (find_all_class soup ''teaser-right twelve'') [] []"

section \<open>Markdown of an article\<close>

text \<open>
  \<open>x in element.get('class', [])\<close>: membership in the list of classes, a substring test
  should the attribute be one string, and false for the default \<open>[]\<close>.
\<close>

fun in_class_attr :: "string \<Rightarrow> attr_value option \<Rightarrow> bool" where
  "in_class_attr x None = False"
| "in_class_attr x (Some (AttrList cls)) = (x \<in> set cls)"
| "in_class_attr x (Some (AttrStr s)) = str_contains s x"

fun convert_to_markdown :: "node \<Rightarrow> py_error + string" where
  "convert_to_markdown (NavigableString s) = Inr s"
| "convert_to_markdown (Tag n a cs) =
     (let element = Tag n a cs in
      if in_class_attr ''textabsatz'' (tag_get element ''class'') then
        (case find_name element ''strong'' of
           Some strong_text \<Rightarrow> Inr ('' **'' @ get_text strong_text @ ''** '')
         | None \<Rightarrow> Inr (get_text element))
      else if n = ''h1'' then
        (let span_elements = find_all_name element ''span'' in
         if length span_elements \<noteq> 0 then
           (case list_get span_elements 0 of
              Inl e \<Rightarrow> Inl e
            | Inr span0 \<Rightarrow>
                (case list_get span_elements 1 of
                   Inl e \<Rightarrow> Inl e
                 | Inr span1 \<Rightarrow>
                     Inr (''# '' @ replace_newlines (get_text_strip '''' span0) @ '' - '' @
                          replace_newlines (get_text_strip '''' span1))))
         else Inr (''# '' @ replace_newlines (get_text element) @ [CHR 0x0A, CHR 0x0A]))
      else if n = ''h2'' then
        Inr ([CHR 0x0A, CHR 0x0A] @ ''## '' @ replace_newlines (get_text element) @
             [CHR 0x0A, CHR 0x0A])
      else Inr [])"

text \<open>
  \<open>remove_elements\<close>: for each name in turn, every element of that name is taken out of
  the tree with all it contains. The document itself is never among the elements found.
\<close>

fun remove_named :: "string \<Rightarrow> node \<Rightarrow> node" where
  "remove_named nm (NavigableString s) = NavigableString s"
| "remove_named nm (Tag n a cs) =
     Tag n a (map (remove_named nm) (filter (\<lambda>c. tag_name c \<noteq> Some nm) cs))"

definition remove_elements :: "string list \<Rightarrow> node \<Rightarrow> node" where
  "remove_elements tags_to_remove soup = fold remove_named tags_to_remove soup"

text \<open>The loop \<open>markdown_content += self.convert_to_markdown(element)\<close>.\<close>

fun convert_elements :: "string \<Rightarrow> node list \<Rightarrow> py_error + string" where
  "convert_elements markdown_content [] = Inr markdown_content"
| "convert_elements markdown_content (element # elements) =
     (case convert_to_markdown element of
        Inl e \<Rightarrow> Inl e
      | Inr md \<Rightarrow> convert_elements (markdown_content @ md) elements)"

definition get_markdown_content :: "string list \<Rightarrow> node \<Rightarrow> py_error + string" where
  "get_markdown_content tags_to_remove soup =
     convert_elements [] (find_all (remove_elements tags_to_remove soup))"

definition default_tags_to_remove :: "string list" where
  "default_tags_to_remove = [''header'', ''footer'', ''aside'']"

section \<open>A small archive page\<close>

text \<open>
  Concrete inputs on which the functions above are run: a teaser block with a date, a
  headline and a link element with the given attributes, followed by further children;
  a short text element; an article with two tags; a page holding a list of blocks; and
  collaborators that find one article only and fail to fetch any other.
\<close>

definition example_block :: "string \<Rightarrow> (string \<times> attr_value) list \<Rightarrow> node list \<Rightarrow> node" where
  "example_block headline link_attrs extra =
     Tag ''div'' [(''class'', AttrList [''teaser-right'', ''twelve''])]
       ([Tag ''a'' ((''class'', AttrList [''teaser-right__link'']) # link_attrs)
          [Tag ''span'' [(''class'', AttrList [''teaser-right__date''])]
             [NavigableString ''01.02.2024 - 10:00 Uhr''],
           Tag ''span'' [(''class'', AttrList [''teaser-right__headline''])]
             [NavigableString headline]]] @ extra)"

definition example_shorttext :: "node" where
  "example_shorttext =
     Tag ''p'' [(''class'', AttrList [''teaser-right__shorttext''])]
       [NavigableString '' Short text '']"

definition example_article :: "node" where
  "example_article =
     Tag ''[document]'' []
       [Tag ''ul'' [(''class'', AttrList [''taglist''])]
          [Tag ''a'' [(''class'', AttrList [''tag-btn'', ''tag-btn--light-grey''])]
             [NavigableString ''b''],
           Tag ''a'' [(''class'', AttrList [''tag-btn'', ''tag-btn--light-grey''])]
             [NavigableString ''a'']]]"



definition example_env :: "env" where
  "example_env =
     \<lparr>get_soup_from_url =
        (\<lambda>url. if url = ''https://www.tagesschau.de/one.html'' then Inr example_article
               else Inl (OtherError ''timed out'')),
      get_hash_from_string = (\<lambda>s. ''#'' @ s),
      transform_datetime_str = (\<lambda>s. Inr s)\<rparr>"

definition example_page :: "node list \<Rightarrow> node" where
  "example_page blocks =
     Tag ''[document]'' [] [Tag ''div'' [(''class'', AttrList [''archive''])] blocks]"

definition block_one :: "node" where
  "block_one = example_block ''One'' [(''href'', AttrStr ''/one.html'')] [example_shorttext]"

definition block_two :: "node" where
  "block_two =
     example_block ''Two'' [(''href'', AttrStr ''https://www.tagesschau.de/two.html'')]
       [example_shorttext]"

definition block_without_shorttext :: "node" where
  "block_without_shorttext = example_block ''Three'' [(''href'', AttrStr ''/one.html'')] []"

definition block_without_href :: "node" where
  "block_without_href = example_block ''Four'' [] [example_shorttext]"

definition record_one :: "dict" where
  "record_one =
     [(''date'', ''01.02.2024 - 10:00 Uhr''), (''headline'', ''One''),
      (''shorttext'', ''Short text''), (''link'', ''https://www.tagesschau.de/one.html''),
      (''tags'', ''a,b''), (''id'', ''#https://www.tagesschau.de/one.html'')]"

definition record_two :: "dict" where
  "record_two =
     [(''date'', ''01.02.2024 - 10:00 Uhr''), (''headline'', ''Two''),
      (''shorttext'', ''Short text''), (''link'', ''https://www.tagesschau.de/two.html''),
      (''id'', ''#https://www.tagesschau.de/two.html'')]"

section \<open>Small articles\<close>

text \<open>Concrete elements and documents on which the markdown conversion is run.\<close>

definition paragraph_padded :: "node" where
  "paragraph_padded =
     Tag ''p'' [(''class'', AttrList [''textabsatz''])] [NavigableString '' hi '']"


definition heading_two_spans :: "node" where
  "heading_two_spans =
     Tag ''h1'' []
       [Tag ''span'' [] [NavigableString ''Topic''], Tag ''span'' [] [NavigableString ''Title'']]"

definition heading_one_span :: "node" where
  "heading_one_span = Tag ''h1'' [] [Tag ''span'' [] [NavigableString ''Topic'']]"

definition heading_plain :: "node" where
  "heading_plain =
     Tag ''h1'' []
       [NavigableString [CHR ''H'', CHR ''e'', CHR ''l'', CHR ''l'', CHR ''o'', CHR 0x0A,
                         CHR ''W'', CHR ''o'', CHR ''r'', CHR ''l'', CHR ''d'']]"

definition document_plain_text :: "node" where
  "document_plain_text = Tag ''[document]'' [] [Tag ''div'' [] [NavigableString ''hello'']]"

definition document_mixed :: "node" where
  "document_mixed =
     Tag ''[document]'' []
       [Tag ''header'' [] [Tag ''h2'' [] [NavigableString ''Menu'']],
        Tag ''div'' []
          [NavigableString ''loose'', Tag ''h2'' [] [NavigableString ''Part''],
           paragraph_padded]]"

section \<open>Facts about strings\<close>

lemma str_contains_set: "str_contains s p \<Longrightarrow> set p \<subseteq> set s"
proof (induction s)
  case Nil then show ?case by simp
next
  case (Cons c cs)
  from Cons.prems have "take (length p) (c # cs) = p \<or> str_contains cs p" by simp
  then show ?case
  proof
    assume "take (length p) (c # cs) = p"
    then have "set p = set (take (length p) (c # cs))" by simp
    then show ?thesis using set_take_subset by fast
  next
    assume "str_contains cs p"
    then show ?thesis using Cons.IH by auto
  qed
qed

lemma str_contains_append:
  assumes "str_contains (xs @ ys) p" and "p \<noteq> []"
  shows "str_contains xs p \<or> last p \<in> set ys"
  using assms
proof (induction xs)
  case Nil
  then have "set p \<subseteq> set ys" using str_contains_set by simp
  moreover have "last p \<in> set p" using Nil.prems(2) by simp
  ultimately show ?case by blast
next
  case (Cons c cs)
  define xs where "xs = c # cs"
  from Cons.prems(1) have "take (length p) (xs @ ys) = p \<or> str_contains (cs @ ys) p"
    by (simp add: xs_def)
  then show ?case
  proof
    assume "take (length p) (xs @ ys) = p"
    then have t: "take (length p) xs @ take (length p - length xs) ys = p" by simp
    show ?thesis
    proof (cases "length p \<le> length xs")
      case True
      then have "take (length p) xs = p" using t by simp
      then show ?thesis by (simp add: xs_def)
    next
      case False
      then have e: "xs @ take (length p - length xs) ys = p" using t by simp
      have ne: "take (length p - length xs) ys \<noteq> []"
      proof
        assume "take (length p - length xs) ys = []"
        then have "xs = p" using e by (metis append_Nil2)
        then show False using False by simp
      qed
      have "last (xs @ take (length p - length xs) ys) = last (take (length p - length xs) ys)"
        using ne by (rule last_appendR)
      then have "last p = last (take (length p - length xs) ys)" by (simp only: e)
      then have "last p \<in> set (take (length p - length xs) ys)" using ne last_in_set by metis
      then show ?thesis using set_take_subset by fast
    qed
  next
    assume "str_contains (cs @ ys) p"
    then show ?thesis using Cons.IH Cons.prems(2) by auto
  qed
qed

lemma digit_char_is_digit: "n < 10 \<Longrightarrow> is_digit (digit_char n)"
proof -
  assume "n < 10"
  then have "n \<in> {0,1,2,3,4,5,6,7,8,9}" by auto
  then show ?thesis by (auto simp: digit_char_def is_digit_def)
qed

lemma str_nat_digits: "\<forall>c \<in> set (str_nat n). is_digit c"
proof (induction n rule: str_nat.induct)
  case (1 n)
  show ?case
  proof (cases "n < 10")
    case True
    then show ?thesis by (simp add: str_nat.simps[of n] digit_char_is_digit)
  next
    case False
    then show ?thesis using 1 by (simp add: str_nat.simps[of n] digit_char_is_digit)
  qed
qed

lemma is_digit_zero: "is_digit CHR ''0''"
  by (simp add: is_digit_def)

lemma zero_pad_digits: "\<forall>c \<in> set s. is_digit c \<Longrightarrow> \<forall>c \<in> set (zero_pad w s). is_digit c"
  using is_digit_zero by (auto simp: zero_pad_def)

lemma strftime_ymd_chars: "c \<in> set (strftime_ymd d) \<Longrightarrow> is_digit c \<or> c = CHR ''-''"
  using zero_pad_digits[OF str_nat_digits] by (auto simp: strftime_ymd_def)

lemma base_no_ressort: "\<not> str_contains ''https://www.tagesschau.de/archiv/?datum='' ''ressort''"
  by simp

lemma url_all_no_ressort:
  "\<not> str_contains (''https://www.tagesschau.de/archiv/?datum='' @ strftime_ymd d) ''ressort''"
proof
  assume "str_contains (''https://www.tagesschau.de/archiv/?datum='' @ strftime_ymd d) ''ressort''"
  then have "str_contains ''https://www.tagesschau.de/archiv/?datum='' ''ressort''
      \<or> last ''ressort'' \<in> set (strftime_ymd d)"
    by (rule str_contains_append) simp
  then have "CHR ''t'' \<in> set (strftime_ymd d)" using base_no_ressort by simp
  then show False using strftime_ymd_chars[of "CHR ''t''" d] by (simp add: is_digit_def)
qed

lemma str_contains_self: "str_contains p p"
  by (cases p) auto

lemma str_contains_suffix: "str_contains (xs @ p) p"
  by (induction xs) (auto simp: str_contains_self)


section \<open>The archive URL and the category\<close>

text \<open>
  Claim C6. For every date, \<open>create_url_for_news_archive\<close> raises \<open>ValueError\<close> for a
  category outside wirtschaft, inland, ausland and all; for the category all it returns
  the URL that ends with the date, in which the text \<open>ressort\<close> does not occur; for each
  of the three named categories it returns that URL followed by \<open>&ressort=\<close> and the
  category.
\<close>

theorem create_url_for_news_archive_categories:
  "(category \<notin> {''wirtschaft'', ''inland'', ''ausland'', ''all''} \<longrightarrow>
      create_url_for_news_archive d category = Inl ValueError) \<and>
   create_url_for_news_archive d ''all'' =
      Inr (''https://www.tagesschau.de/archiv/?datum='' @ strftime_ymd d) \<and>
   \<not> str_contains (''https://www.tagesschau.de/archiv/?datum='' @ strftime_ymd d) ''ressort'' \<and>
   (category \<in> {''wirtschaft'', ''inland'', ''ausland''} \<longrightarrow>
      create_url_for_news_archive d category =
        Inr (''https://www.tagesschau.de/archiv/?datum='' @ strftime_ymd d @ ''&ressort='' @ category) \<and>
      str_contains
        (''https://www.tagesschau.de/archiv/?datum='' @ strftime_ymd d @ ''&ressort='' @ category)
        (''&ressort='' @ category))"
proof -
  have other: "category \<notin> {''wirtschaft'', ''inland'', ''ausland'', ''all''} \<longrightarrow>
      create_url_for_news_archive d category = Inl ValueError"
    by (simp add: create_url_for_news_archive_def categories_def)
  have all: "create_url_for_news_archive d ''all'' =
      Inr (''https://www.tagesschau.de/archiv/?datum='' @ strftime_ymd d)"
    by (simp add: create_url_for_news_archive_def categories_def)
  have named: "category \<in> {''wirtschaft'', ''inland'', ''ausland''} \<longrightarrow>
      create_url_for_news_archive d category =
        Inr (''https://www.tagesschau.de/archiv/?datum='' @ strftime_ymd d @ ''&ressort='' @ category)"
    by (simp add: create_url_for_news_archive_def categories_def)
  have "str_contains
        ((''https://www.tagesschau.de/archiv/?datum='' @ strftime_ymd d) @ (''&ressort='' @ category))
        (''&ressort='' @ category)"
    by (rule str_contains_suffix)
  then have inc: "str_contains
        (''https://www.tagesschau.de/archiv/?datum='' @ strftime_ymd d @ ''&ressort='' @ category)
        (''&ressort='' @ category)"
    by (simp only: append_assoc)
  show ?thesis using other all named inc url_all_no_ressort by blast
qed

text \<open>The three cases at 3 February 2024.\<close>

theorem create_url_for_news_archive_categories_witness:
  "''sport'' \<notin> {''wirtschaft'', ''inland'', ''ausland'', ''all''} \<and>
   create_url_for_news_archive \<lparr>year = 2024, month = 2, day = 3\<rparr> ''sport'' = Inl ValueError \<and>
   ''inland'' \<in> {''wirtschaft'', ''inland'', ''ausland''} \<and>
   create_url_for_news_archive \<lparr>year = 2024, month = 2, day = 3\<rparr> ''inland'' =
     Inr ''https://www.tagesschau.de/archiv/?datum=2024-02-03&ressort=inland'' \<and>
   create_url_for_news_archive \<lparr>year = 2024, month = 2, day = 3\<rparr> ''all'' =
     Inr ''https://www.tagesschau.de/archiv/?datum=2024-02-03''"
proof -
  have s: "strftime_ymd \<lparr>year = 2024, month = 2, day = 3\<rparr> = ''2024-02-03''"
    by (simp add: strftime_ymd_def zero_pad_def str_nat.simps digit_char_def)
  have h1: "''sport'' \<notin> {''wirtschaft'', ''inland'', ''ausland'', ''all''}" by simp
  have h2: "''inland'' \<in> {''wirtschaft'', ''inland'', ''ausland''}" by simp
  show ?thesis
    using h1 h2
      create_url_for_news_archive_categories [of "''sport''" "\<lparr>year = 2024, month = 2, day = 3\<rparr>"]
      create_url_for_news_archive_categories [of "''inland''" "\<lparr>year = 2024, month = 2, day = 3\<rparr>"]
    by (simp add: s)
qed

section \<open>Facts about dictionaries and the page loop\<close>

lemma dict_keys_dict_set: "dict_keys (dict_set d k v) = insert k (dict_keys d)"
proof -
  have "set (map fst (dict_set d k v)) = insert k (set (map fst d))"
  proof (induction d)
    case Nil
    show ?case by simp
  next
    case (Cons p d)
    obtain k' v' where p: "p = (k', v')" by (cases p)
    show ?case
    proof (cases "k' = k")
      case True
      then show ?thesis by (simp add: p)
    next
      case False
      then show ?thesis using Cons.IH by (simp add: p insert_commute)
    qed
  qed
  then show ?thesis by (simp only: dict_keys_def)
qed

lemma dict_get_in_keys: "dict_get d k = Inr v \<Longrightarrow> k \<in> dict_keys d"
  by (auto simp: dict_get_def dict_keys_def split: option.splits dest: map_of_SomeD intro: rev_image_eqI)

lemma valid_iff: "snd (is_teaser_info_valid info) \<longleftrightarrow> required_attributes \<subseteq> dict_keys info"
  by (auto simp: is_teaser_info_valid_def)

lemma process_info_keys:
  "process_info ev info = Inr p \<Longrightarrow> dict_keys p = insert ''id'' (dict_keys info)"
  by (auto simp: process_info_def Let_def dict_keys_dict_set dest: dict_get_in_keys split: sum.splits)

lemma extract_fields_keys:
  "extract_fields soup fs info = Inr info' \<Longrightarrow>
   dict_keys info' \<subseteq> dict_keys info \<union> fst ` set fs"
proof (induction fs arbitrary: info)
  case Nil
  then show ?case by simp
next
  case (Cons f rest)
  obtain field_name html_class_name where f: "f = (field_name, html_class_name)" by (cases f)
  from Cons.prems obtain info1 where
    step: "extract_fields soup rest info1 = Inr info'" and
    keys: "dict_keys info1 \<subseteq> insert field_name (dict_keys info)"
    unfolding f
    by (auto simp: dict_keys_dict_set split: option.splits attr_value.splits if_splits)
  from Cons.IH[OF step] keys show ?case unfolding f by auto
qed

lemma extract_info_from_teaser_keys:
  "extract_info_from_teaser t = Inr info \<Longrightarrow>
   dict_keys info \<subseteq> {''date'', ''topline'', ''headline'', ''shorttext'', ''link''}"
  using extract_fields_keys[of t name_html_mapping "[]" info]
  by (auto simp: extract_info_from_teaser_def name_html_mapping_def field_names_text_def
      field_names_link_def dict_keys_def)


lemma extract_teasers_step:
  assumes "extract_teasers ev (t # rest) acc out = (out', Inr records)"
  shows "\<exists>info out1 enriched p.
           extract_info_from_teaser t = Inr info \<and>
           enrich_teaser_info_with_article_tags ev info = (out1, Inr enriched) \<and>
           process_info ev enriched = Inr p \<and>
           extract_teasers ev rest (if snd (is_teaser_info_valid p) then acc @ [p] else acc)
             (out @ out1 @ fst (is_teaser_info_valid p)) = (out', Inr records)"
  using assms by (auto split: sum.splits prod.splits)

lemma extract_teasers_records:
  "extract_teasers ev ts acc out = (out', Inr records) \<Longrightarrow>
   set acc \<subseteq> set records \<and> (\<forall>r \<in> set records. r \<in> set acc \<or> snd (is_teaser_info_valid r))"
proof (induction ts arbitrary: acc out)
  case Nil
  then show ?case by simp
next
  case (Cons t rest)
  from extract_teasers_step[OF Cons.prems] obtain p out1 where
    r: "extract_teasers ev rest (if snd (is_teaser_info_valid p) then acc @ [p] else acc)
          (out @ out1 @ fst (is_teaser_info_valid p)) = (out', Inr records)"
    by blast
  from Cons.IH[OF r] show ?case by (auto split: if_splits)
qed

lemma extract_teasers_raises:
  "t \<in> set ts \<Longrightarrow> extract_info_from_teaser t = Inl e0 \<Longrightarrow>
   \<exists>out' e. extract_teasers ev ts acc out = (out', Inl e)"
proof (induction ts arbitrary: acc out)
  case Nil
  then show ?case by simp
next
  case (Cons u rest)
  show ?case
  proof (cases "u = t")
    case True
    then show ?thesis using Cons.prems(2) by simp
  next
    case False
    then have "t \<in> set rest" using Cons.prems(1) by simp
    from Cons.IH[OF this Cons.prems(2)]
    have "\<And>acc out. \<exists>out' e. extract_teasers ev rest acc out = (out', Inl e)" by blast
    then show ?thesis by (auto split: sum.splits prod.splits)
  qed
qed

lemma malformed_link_raises:
  assumes "find_class t ''teaser-right__link'' = Some tag"
    and "\<forall>href. tag_get tag ''href'' \<noteq> Some (AttrStr href)"
  shows "extract_info_from_teaser t = Inl ValueError"
proof -
  have last: "extract_fields t [(''link'', ''teaser-right__link'')] info = Inl ValueError" for info
    using assms by (auto simp: field_names_text_def field_names_link_def
        split: option.splits attr_value.splits)
  have step: "extract_fields t (f # fs) info = Inl ValueError"
    if "fst f \<in> set field_names_text" and "\<And>info. extract_fields t fs info = Inl ValueError"
    for f fs info
    using that by (cases f) (auto split: option.splits)
  have "extract_fields t [(''date'', ''teaser-right__date''), (''topline'', ''teaser-right__topline''),
      (''headline'', ''teaser-right__headline''), (''shorttext'', ''teaser-right__shorttext''),
      (''link'', ''teaser-right__link'')] [] = Inl ValueError"
    by (intro step last) (simp_all add: field_names_text_def)
  then show ?thesis
    by (simp add: extract_info_from_teaser_def name_html_mapping_def field_names_text_def
        field_names_link_def)
qed



section \<open>Validity of a teaser record\<close>

text \<open>
  Claim C5. \<open>is_teaser_info_valid\<close> answers true exactly when the keys of the record
  include date, headline, shorttext and link; so a record without shorttext is judged
  invalid whatever else it holds; and every record in the list that the page loop returns
  has the four keys and is valid.
\<close>

theorem teaser_valid_iff_required_fields:
  "(snd (is_teaser_info_valid info) \<longleftrightarrow>
      {''date'', ''headline'', ''shorttext'', ''link''} \<subseteq> dict_keys info) \<and>
   (''shorttext'' \<notin> dict_keys info \<longrightarrow> \<not> snd (is_teaser_info_valid info)) \<and>
   (extract_info_for_all_teaser ev soup = (out, Inr records) \<longrightarrow>
      (\<forall>r \<in> set records.
         {''date'', ''headline'', ''shorttext'', ''link''} \<subseteq> dict_keys r \<and>
         snd (is_teaser_info_valid r)))"
proof -
  have iff: "snd (is_teaser_info_valid i) \<longleftrightarrow>
      {''date'', ''headline'', ''shorttext'', ''link''} \<subseteq> dict_keys i" for i
    using valid_iff[of i] by (simp only: required_attributes_def)
  have short: "''shorttext'' \<notin> dict_keys info \<longrightarrow> \<not> snd (is_teaser_info_valid info)"
    using iff[of info] by blast
  have loop: "\<forall>r \<in> set records.
         {''date'', ''headline'', ''shorttext'', ''link''} \<subseteq> dict_keys r \<and>
         snd (is_teaser_info_valid r)"
    if "extract_info_for_all_teaser ev soup = (out, Inr records)"
  proof -
    from that have "extract_teasers ev (find_all_class soup ''teaser-right twelve'') [] [] =
        (out, Inr records)"
      by (simp only: extract_info_for_all_teaser_def)
    from extract_teasers_records[OF this]
    have "\<forall>r \<in> set records. snd (is_teaser_info_valid r)" by simp
    then show ?thesis using iff by blast
  qed
  show ?thesis using iff[of info] short loop by blast
qed

text \<open>
  A page with a complete block and a block lacking its short text: only the first record
  is returned.
\<close>

theorem teaser_valid_iff_required_fields_witness:
  "extract_info_for_all_teaser example_env (example_page [block_one, block_without_shorttext]) =
     ([Ic ''False'', Ic ''teaser_info.keys()''], Inr [record_one]) \<and>
   {''date'', ''headline'', ''shorttext'', ''link''} \<subseteq> dict_keys record_one \<and>
   snd (is_teaser_info_valid record_one) \<and>
   extract_info_from_teaser block_without_shorttext =
     Inr [(''date'', ''01.02.2024 - 10:00 Uhr''), (''headline'', ''Three''),
          (''link'', ''https://www.tagesschau.de/one.html'')] \<and>
   ''shorttext'' \<notin> dict_keys [(''date'', ''01.02.2024 - 10:00 Uhr''), (''headline'', ''Three''),
          (''link'', ''https://www.tagesschau.de/one.html'')] \<and>
   \<not> snd (is_teaser_info_valid [(''date'', ''01.02.2024 - 10:00 Uhr''), (''headline'', ''Three''),
          (''link'', ''https://www.tagesschau.de/one.html'')])"
proof -
  have run: "extract_info_for_all_teaser example_env
      (example_page [block_one, block_without_shorttext]) =
     ([Ic ''False'', Ic ''teaser_info.keys()''], Inr [record_one])"
    by code_simp
  have ex: "extract_info_from_teaser block_without_shorttext =
     Inr [(''date'', ''01.02.2024 - 10:00 Uhr''), (''headline'', ''Three''),
          (''link'', ''https://www.tagesschau.de/one.html'')]"
    by code_simp
  have miss: "''shorttext'' \<notin> dict_keys [(''date'', ''01.02.2024 - 10:00 Uhr''),
      (''headline'', ''Three''), (''link'', ''https://www.tagesschau.de/one.html'')]"
    by (simp add: dict_keys_def)
  show ?thesis
    using run ex miss
      teaser_valid_iff_required_fields [of
        "[(''date'', ''01.02.2024 - 10:00 Uhr''), (''headline'', ''Three''),
          (''link'', ''https://www.tagesschau.de/one.html'')]"
        example_env "example_page [block_one, block_without_shorttext]"
        "[Ic ''False'', Ic ''teaser_info.keys()'']" "[record_one]"]
    by simp
qed

section \<open>A link element without href\<close>

text \<open>
  Claim C1 says that a teaser whose link element has no \<open>href\<close> is dropped alone and its
  siblings still reach the output. On the page below the second block is complete and is
  returned when it stands alone, yet with the block without \<open>href\<close> before it the
  extraction ends with \<open>ValueError\<close> and returns no record.
\<close>

theorem malformed_link_sibling_counterexample:
  "extract_info_for_all_teaser example_env (example_page [block_one]) = ([], Inr [record_one]) \<and>
   extract_info_for_all_teaser example_env (example_page [block_without_href, block_one]) =
     ([], Inl ValueError)"
  by code_simp

text \<open>
  Claim C1, amended. When a teaser block of the page has a link element whose \<open>href\<close> is
  not a string, \<open>extract_info_from_teaser\<close> raises \<open>ValueError\<close> for that block, the page
  loop does not catch it, and the extraction of the whole page ends with an exception
  instead of a list of records; the loop that reaches such a block ends with that
  \<open>ValueError\<close> and writes nothing out for it.
\<close>

theorem malformed_link_aborts_page:
  assumes "t \<in> set (find_all_class soup ''teaser-right twelve'')"
    and "find_class t ''teaser-right__link'' = Some tag"
    and "\<forall>href. tag_get tag ''href'' \<noteq> Some (AttrStr href)"
  shows "extract_info_from_teaser t = Inl ValueError \<and>
         (\<exists>out e. extract_info_for_all_teaser ev soup = (out, Inl e)) \<and>
         (\<forall>rest acc out. extract_teasers ev (t # rest) acc out = (out, Inl ValueError))"
proof -
  have r: "extract_info_from_teaser t = Inl ValueError"
    using assms(2,3) by (rule malformed_link_raises)
  have "\<exists>out e. extract_teasers ev (find_all_class soup ''teaser-right twelve'') [] [] = (out, Inl e)"
    using assms(1) r by (rule extract_teasers_raises)
  then have p: "\<exists>out e. extract_info_for_all_teaser ev soup = (out, Inl e)"
    by (simp only: extract_info_for_all_teaser_def)
  have "\<forall>rest acc out. extract_teasers ev (t # rest) acc out = (out, Inl ValueError)"
    by (simp add: r)
  then show ?thesis using r p by blast
qed

text \<open>The page of the counterexample satisfies the three hypotheses.\<close>

theorem malformed_link_aborts_page_witness:
  "block_without_href \<in>
     set (find_all_class (example_page [block_without_href, block_one]) ''teaser-right twelve'') \<and>
   find_class block_without_href ''teaser-right__link'' =
     Some (Tag ''a'' [(''class'', AttrList [''teaser-right__link''])]
          [Tag ''span'' [(''class'', AttrList [''teaser-right__date''])]
             [NavigableString ''01.02.2024 - 10:00 Uhr''],
           Tag ''span'' [(''class'', AttrList [''teaser-right__headline''])]
             [NavigableString ''Four'']]) \<and>
   extract_info_from_teaser block_without_href = Inl ValueError \<and>
   extract_teasers example_env [block_without_href, block_one] [] [] = ([], Inl ValueError) \<and>
   (\<exists>out e. extract_info_for_all_teaser example_env
      (example_page [block_without_href, block_one]) = (out, Inl e))"
proof -
  let ?tag = "Tag ''a'' [(''class'', AttrList [''teaser-right__link''])]
          [Tag ''span'' [(''class'', AttrList [''teaser-right__date''])]
             [NavigableString ''01.02.2024 - 10:00 Uhr''],
           Tag ''span'' [(''class'', AttrList [''teaser-right__headline''])]
             [NavigableString ''Four'']]"
  have h1: "block_without_href \<in>
     set (find_all_class (example_page [block_without_href, block_one]) ''teaser-right twelve'')"
    by code_simp
  have h2: "find_class block_without_href ''teaser-right__link'' = Some ?tag"
    by code_simp
  have h3: "\<forall>href. tag_get ?tag ''href'' \<noteq> Some (AttrStr href)"
    by simp
  from malformed_link_aborts_page [OF h1 h2 h3, of example_env] h1 h2
  show ?thesis by blast
qed

section \<open>A failed fetch during tag enrichment\<close>

lemma enrich_fetch_failure:
  assumes "dict_get info ''link'' = Inr link" and "get_soup_from_url ev link = Inl err"
  shows "\<exists>line. enrich_teaser_info_with_article_tags ev info = ([Print line], Inr info)"
  using assms by (cases err) (simp_all add: enrich_teaser_info_with_article_tags_def)

text \<open>
  Claim C4. When the fetch of the article of a teaser fails with any error, the enrichment
  prints one line, raises nothing and returns the record it was given; the page loop then
  goes on with that record exactly as after any other enrichment: \<open>process_info\<close>, the
  validity check, and the remaining teaser blocks of the page.
\<close>

theorem enrichment_fetch_failure_is_caught:
  assumes "dict_get info ''link'' = Inr link" and "get_soup_from_url ev link = Inl err"
  shows "\<exists>line.
     enrich_teaser_info_with_article_tags ev info = ([Print line], Inr info) \<and>
     (\<forall>t rest acc out.
        extract_info_from_teaser t = Inr info \<longrightarrow>
        extract_teasers ev (t # rest) acc out =
          (case process_info ev info of
             Inl e \<Rightarrow> (out @ [Print line], Inl e)
           | Inr p \<Rightarrow>
               extract_teasers ev rest
                 (if snd (is_teaser_info_valid p) then acc @ [p] else acc)
                 (out @ [Print line] @ fst (is_teaser_info_valid p))))"
proof -
  from enrich_fetch_failure[OF assms] obtain line where
    l: "enrich_teaser_info_with_article_tags ev info = ([Print line], Inr info)" by blast
  have "extract_teasers ev (t # rest) acc out =
          (case process_info ev info of
             Inl e \<Rightarrow> (out @ [Print line], Inl e)
           | Inr p \<Rightarrow>
               extract_teasers ev rest
                 (if snd (is_teaser_info_valid p) then acc @ [p] else acc)
                 (out @ [Print line] @ fst (is_teaser_info_valid p)))"
    if "extract_info_from_teaser t = Inr info" for t rest acc out
    using that l by (simp split: sum.splits prod.splits)
  then show ?thesis using l by blast
qed

text \<open>
  The page with the block whose article cannot be fetched before a block whose article
  can: both records are returned, and the error was printed.
\<close>

theorem enrichment_fetch_failure_is_caught_witness:
  "dict_get [(''date'', ''01.02.2024 - 10:00 Uhr''), (''headline'', ''Two''),
      (''shorttext'', ''Short text''), (''link'', ''https://www.tagesschau.de/two.html'')] ''link'' =
     Inr ''https://www.tagesschau.de/two.html'' \<and>
   get_soup_from_url example_env ''https://www.tagesschau.de/two.html'' =
     Inl (OtherError ''timed out'') \<and>
   enrich_teaser_info_with_article_tags example_env
     [(''date'', ''01.02.2024 - 10:00 Uhr''), (''headline'', ''Two''),
      (''shorttext'', ''Short text''), (''link'', ''https://www.tagesschau.de/two.html'')] =
     ([Print ''Error: timed out''],
      Inr [(''date'', ''01.02.2024 - 10:00 Uhr''), (''headline'', ''Two''),
           (''shorttext'', ''Short text''), (''link'', ''https://www.tagesschau.de/two.html'')]) \<and>
   extract_teasers example_env [block_two, block_one] [] [] =
     ([Print ''Error: timed out''], Inr [record_two, record_one])"
proof -
  let ?info = "[(''date'', ''01.02.2024 - 10:00 Uhr''), (''headline'', ''Two''),
      (''shorttext'', ''Short text''), (''link'', ''https://www.tagesschau.de/two.html'')]"
  have h1: "dict_get ?info ''link'' = Inr ''https://www.tagesschau.de/two.html''"
    by code_simp
  have h2: "get_soup_from_url example_env ''https://www.tagesschau.de/two.html'' =
     Inl (OtherError ''timed out'')"
    by code_simp
  have h3: "extract_info_from_teaser block_two = Inr ?info"
    by code_simp
  have p: "process_info example_env ?info = Inr record_two"
    by code_simp
  have v: "is_teaser_info_valid record_two = ([], True)"
    by code_simp
  have r: "extract_teasers example_env [block_one] [record_two] [Print ''Error: timed out''] =
     ([Print ''Error: timed out''], Inr [record_two, record_one])"
    by code_simp
  from enrichment_fetch_failure_is_caught [OF h1 h2] obtain line where
    e: "enrich_teaser_info_with_article_tags example_env ?info = ([Print line], Inr ?info)" and
    c: "\<forall>t rest acc out.
        extract_info_from_teaser t = Inr ?info \<longrightarrow>
        extract_teasers example_env (t # rest) acc out =
          (case process_info example_env ?info of
             Inl e \<Rightarrow> (out @ [Print line], Inl e)
           | Inr p \<Rightarrow>
               extract_teasers example_env rest
                 (if snd (is_teaser_info_valid p) then acc @ [p] else acc)
                 (out @ [Print line] @ fst (is_teaser_info_valid p)))"
    by blast
  have "enrich_teaser_info_with_article_tags example_env ?info = ([Print ''Error: timed out''], Inr ?info)"
    by code_simp
  with e have line: "line = ''Error: timed out''" by simp
  from c [rule_format, OF h3, of "[block_one]" "[]" "[]"]
  have step: "extract_teasers example_env [block_two, block_one] [] [] =
      (case process_info example_env ?info of
             Inl e \<Rightarrow> ([] @ [Print line], Inl e)
           | Inr p \<Rightarrow>
               extract_teasers example_env [block_one]
                 (if snd (is_teaser_info_valid p) then [] @ [p] else [])
                 ([] @ [Print line] @ fst (is_teaser_info_valid p)))" .
  have "(case process_info example_env ?info of
             Inl e \<Rightarrow> ([] @ [Print line], Inl e)
           | Inr p \<Rightarrow>
               extract_teasers example_env [block_one]
                 (if snd (is_teaser_info_valid p) then [] @ [p] else [])
                 ([] @ [Print line] @ fst (is_teaser_info_valid p))) =
        extract_teasers example_env [block_one] [record_two] [Print ''Error: timed out'']"
    by (simp add: p v line del: extract_teasers.simps)
  with step r have "extract_teasers example_env [block_two, block_one] [] [] =
     ([Print ''Error: timed out''], Inr [record_two, record_one])"
    by (simp only:)
  then show ?thesis using h1 h2 e line by (simp del: extract_teasers.simps)
qed

lemma processed_record_in_output:
  assumes "extract_info_from_teaser t = Inr info"
    and "enrich_teaser_info_with_article_tags ev info = (out1, Inr info)"
    and "process_info ev info = Inr p"
    and "snd (is_teaser_info_valid p)"
    and "extract_teasers ev (t # rest) acc out = (out', Inr records)"
  shows "p \<in> set records"
proof -
  obtain out2 where v2: "is_teaser_info_valid p = (out2, True)"
    using assms(4) by (cases "is_teaser_info_valid p") simp
  have "extract_teasers ev (t # rest) acc out =
      extract_teasers ev rest (acc @ [p]) (out @ out1 @ out2)"
    by (simp add: assms(1,2,3) v2)
  with assms(5) have "extract_teasers ev rest (acc @ [p]) (out @ out1 @ out2) =
       (out', Inr records)"
    by (simp only:)
  from extract_teasers_records[OF this] show ?thesis by simp
qed

lemma extracted_record_has_no_tags:
  assumes "extract_info_from_teaser t = Inr info"
  shows "''tags'' \<notin> dict_keys info"
proof -
  have "''tags'' \<notin> {''date'', ''topline'', ''headline'', ''shorttext'', ''link''}" by simp
  with extract_info_from_teaser_keys[OF assms] show ?thesis by (rule contra_subsetD)
qed

lemma processed_record_valid:
  assumes "process_info ev info = Inr p"
    and "{''date'', ''headline'', ''shorttext'', ''link''} \<subseteq> dict_keys info"
  shows "snd (is_teaser_info_valid p)"
proof -
  have keys: "dict_keys p = insert ''id'' (dict_keys info)"
    using assms(1) by (rule process_info_keys)
  from assms(2) have "{''date'', ''headline'', ''shorttext'', ''link''} \<subseteq> insert ''id'' (dict_keys info)"
    by (rule subset_insertI2)
  then have "required_attributes \<subseteq> dict_keys p"
    by (simp only: keys required_attributes_def)
  then show ?thesis by (simp only: valid_iff)
qed

lemma processed_record_has_no_tags:
  assumes "process_info ev info = Inr p" and "''tags'' \<notin> dict_keys info"
  shows "''tags'' \<notin> dict_keys p"
proof -
  have keys: "dict_keys p = insert ''id'' (dict_keys info)"
    using assms(1) by (rule process_info_keys)
  have "''tags'' \<noteq> ''id''" by simp
  with assms(2) have "''tags'' \<notin> insert ''id'' (dict_keys info)" by simp
  then show ?thesis unfolding keys .
qed

text \<open>
  Claim C10. For a teaser whose article cannot be fetched, the record returned by the
  enrichment is the record extracted from the block and has no key \<open>tags\<close>; once processed
  it is valid whenever date, headline, shorttext and link are present, it still has no key
  \<open>tags\<close>, and it is in every list of records that the page loop returns.
\<close>

theorem failed_enrichment_record_has_no_tags:
  assumes "extract_info_from_teaser t = Inr info"
    and "dict_get info ''link'' = Inr link"
    and "get_soup_from_url ev link = Inl err"
  shows "snd (enrich_teaser_info_with_article_tags ev info) = Inr info \<and>
         ''tags'' \<notin> dict_keys info \<and>
         (\<forall>p. process_info ev info = Inr p \<and>
              {''date'', ''headline'', ''shorttext'', ''link''} \<subseteq> dict_keys info \<longrightarrow>
              snd (is_teaser_info_valid p) \<and> ''tags'' \<notin> dict_keys p \<and>
              (\<forall>rest acc out out' records.
                 extract_teasers ev (t # rest) acc out = (out', Inr records) \<longrightarrow>
                 p \<in> set records))"
proof (intro conjI allI impI)
  from enrich_fetch_failure[OF assms(2,3)] obtain line where
    l: "enrich_teaser_info_with_article_tags ev info = ([Print line], Inr info)" by blast
  then show "snd (enrich_teaser_info_with_article_tags ev info) = Inr info" by simp
  show b: "''tags'' \<notin> dict_keys info"
    using assms(1) by (rule extracted_record_has_no_tags)
  fix p
  assume pk: "process_info ev info = Inr p \<and>
      {''date'', ''headline'', ''shorttext'', ''link''} \<subseteq> dict_keys info"
  then have p: "process_info ev info = Inr p"
    and k: "{''date'', ''headline'', ''shorttext'', ''link''} \<subseteq> dict_keys info"
    by (rule conjunct1, rule conjunct2)
  show v: "snd (is_teaser_info_valid p)" using p k by (rule processed_record_valid)
  show "''tags'' \<notin> dict_keys p" using p b by (rule processed_record_has_no_tags)
  fix rest acc out out' records
  assume "extract_teasers ev (t # rest) acc out = (out', Inr records)"
  with assms(1) l p v show "p \<in> set records" by (rule processed_record_in_output)
qed

text \<open>The record returned for the second example block has no entry for \<open>tags\<close>.\<close>

theorem failed_enrichment_record_has_no_tags_witness:
  "extract_info_from_teaser block_two =
     Inr [(''date'', ''01.02.2024 - 10:00 Uhr''), (''headline'', ''Two''),
          (''shorttext'', ''Short text''), (''link'', ''https://www.tagesschau.de/two.html'')] \<and>
   process_info example_env
     [(''date'', ''01.02.2024 - 10:00 Uhr''), (''headline'', ''Two''),
      (''shorttext'', ''Short text''), (''link'', ''https://www.tagesschau.de/two.html'')] =
     Inr record_two \<and>
   extract_info_for_all_teaser example_env (example_page [block_two, block_one]) =
     ([Print ''Error: timed out''], Inr [record_two, record_one]) \<and>
   record_two \<in> set [record_two, record_one] \<and>
   snd (is_teaser_info_valid record_two) \<and>
   ''tags'' \<notin> dict_keys record_two \<and>
   map_of record_two ''tags'' = None"
proof -
  let ?info = "[(''date'', ''01.02.2024 - 10:00 Uhr''), (''headline'', ''Two''),
      (''shorttext'', ''Short text''), (''link'', ''https://www.tagesschau.de/two.html'')]"
  have h1: "extract_info_from_teaser block_two = Inr ?info"
    by code_simp
  have h2: "dict_get ?info ''link'' = Inr ''https://www.tagesschau.de/two.html''"
    by code_simp
  have h3: "get_soup_from_url example_env ''https://www.tagesschau.de/two.html'' =
     Inl (OtherError ''timed out'')"
    by code_simp
  have p: "process_info example_env ?info = Inr record_two"
    by code_simp
  have k: "{''date'', ''headline'', ''shorttext'', ''link''} \<subseteq> dict_keys ?info"
    by (simp add: dict_keys_def)
  have run: "extract_info_for_all_teaser example_env (example_page [block_two, block_one]) =
     ([Print ''Error: timed out''], Inr [record_two, record_one])"
    by code_simp
  have m: "map_of record_two ''tags'' = None"
    by code_simp
  from failed_enrichment_record_has_no_tags [OF h1 h2 h3] p k
  have "snd (is_teaser_info_valid record_two) \<and> ''tags'' \<notin> dict_keys record_two"
    by blast
  then show ?thesis using h1 p run m by simp
qed

section \<open>The stored tag string\<close>



section \<open>Body paragraphs\<close>




section \<open>Top-level headings\<close>

text \<open>
  What the conversion does with an \<open>h1\<close> element outside the paragraph rule, by the number
  of \<open>span\<close> elements found in it: none, exactly one, two or more.
\<close>

lemma h1_rendering_cases:
  assumes "\<not> in_class_attr ''textabsatz'' (tag_get (Tag ''h1'' a cs) ''class'')"
  shows "(find_all_name (Tag ''h1'' a cs) ''span'' = [] \<longrightarrow>
            convert_to_markdown (Tag ''h1'' a cs) =
              Inr (''# '' @ replace_newlines (get_text (Tag ''h1'' a cs)) @ [CHR 0x0A, CHR 0x0A])) \<and>
         (\<forall>span0. find_all_name (Tag ''h1'' a cs) ''span'' = [span0] \<longrightarrow>
            convert_to_markdown (Tag ''h1'' a cs) = Inl IndexError) \<and>
         (\<forall>span0 span1 more_spans.
            find_all_name (Tag ''h1'' a cs) ''span'' = span0 # span1 # more_spans \<longrightarrow>
            convert_to_markdown (Tag ''h1'' a cs) =
              Inr (''# '' @ replace_newlines (get_text_strip '''' span0) @ '' - '' @
                   replace_newlines (get_text_strip '''' span1)))"
  using assms by (simp add: list_get_def)

text \<open>
  Claim C2 says that an \<open>h1\<close> element with exactly one \<open>span\<close> is rendered as \<open>#\<close>, its
  full text and a blank line. The test \<open>len(span_elements)\<close> lets one span through to
  \<open>span_elements[1]\<close>: for the heading with the single span \<open>Topic\<close> the conversion
  raises \<open>IndexError\<close>, and so does the conversion of a document that holds it. The two
  examples of the specification, two spans and plain text with a newline, give what the
  claim says.
\<close>

theorem heading_with_one_span_raises:
  "find_all_name heading_one_span ''span'' = [Tag ''span'' [] [NavigableString ''Topic'']] \<and>
   convert_to_markdown heading_one_span = Inl IndexError \<and>
   get_markdown_content default_tags_to_remove (Tag ''[document]'' [] [heading_one_span]) =
     Inl IndexError \<and>
   get_text heading_one_span = ''Topic'' \<and>
   convert_to_markdown heading_two_spans = Inr ''# Topic - Title'' \<and>
   convert_to_markdown heading_plain =
     Inr [CHR ''#'', CHR '' '', CHR ''H'', CHR ''e'', CHR ''l'', CHR ''l'', CHR ''o'', CHR '' '',
          CHR ''W'', CHR ''o'', CHR ''r'', CHR ''l'', CHR ''d'', CHR 0x0A, CHR 0x0A]"
  by code_simp


section \<open>The traversal of the markdown conversion\<close>

lemma convert_elements_concat:
  "convert_elements acc es = Inr md \<longleftrightarrow>
   (\<exists>mds. map convert_to_markdown es = map Inr mds \<and> md = acc @ concat mds)"
proof (induction es arbitrary: acc)
  case Nil
  then show ?case by auto
next
  case (Cons e es)
  show ?case
  proof (cases "convert_to_markdown e")
    case (Inl err)
    have "\<not> (\<exists>mds. map convert_to_markdown (e # es) = map Inr mds \<and> md = acc @ concat mds)"
    proof
      assume "\<exists>mds. map convert_to_markdown (e # es) = map Inr mds \<and> md = acc @ concat mds"
      then obtain mds where m: "map convert_to_markdown (e # es) = map Inr mds" by blast
      then obtain x xs where "mds = x # xs" by (cases mds) auto
      with m have "convert_to_markdown e = Inr x" by simp
      with Inl show False by simp
    qed
    then show ?thesis using Inl by simp
  next
    case (Inr m1)
    have "(\<exists>mds. map convert_to_markdown (e # es) = map Inr mds \<and> md = acc @ concat mds) \<longleftrightarrow>
          (\<exists>mds'. map convert_to_markdown es = map Inr mds' \<and> md = (acc @ m1) @ concat mds')"
    proof
      assume "\<exists>mds. map convert_to_markdown (e # es) = map Inr mds \<and> md = acc @ concat mds"
      then obtain mds where m: "map convert_to_markdown (e # es) = map Inr mds"
        and d: "md = acc @ concat mds" by blast
      then obtain x xs where c: "mds = x # xs" by (cases mds) auto
      with m Inr have "x = m1" and "map convert_to_markdown es = map Inr xs" by simp_all
      with d c show "\<exists>mds'. map convert_to_markdown es = map Inr mds' \<and> md = (acc @ m1) @ concat mds'"
        by auto
    next
      assume "\<exists>mds'. map convert_to_markdown es = map Inr mds' \<and> md = (acc @ m1) @ concat mds'"
      then obtain xs where "map convert_to_markdown es = map Inr xs"
        and "md = (acc @ m1) @ concat xs" by blast
      with Inr have "map convert_to_markdown (e # es) = map Inr (m1 # xs) \<and>
          md = acc @ concat (m1 # xs)" by simp
      then show "\<exists>mds. map convert_to_markdown (e # es) = map Inr mds \<and> md = acc @ concat mds"
        by blast
    qed
    then show ?thesis using Inr Cons.IH[of "acc @ m1"] by simp
  qed
qed

lemma find_all_tags_only: "e \<in> set (find_all soup) \<Longrightarrow> is_tag e \<and> e \<in> set (descendants soup)"
  by (simp add: find_all_def)

lemma remove_named_names:
  "e \<in> set (descendants (remove_named nm nd)) \<Longrightarrow>
   tag_name e \<noteq> Some nm \<and> (\<exists>e' \<in> set (descendants nd). tag_name e' = tag_name e)"
proof (induction nd arbitrary: e)
  case (NavigableString s)
  then show ?case by simp
next
  case (Tag n a cs)
  from Tag.prems obtain c where c: "c \<in> set cs" "tag_name c \<noteq> Some nm"
    and e: "e = remove_named nm c \<or> e \<in> set (descendants (remove_named nm c))"
    by auto
  from e show ?case
  proof
    assume "e = remove_named nm c"
    then have "tag_name e = tag_name c" by (cases c) simp_all
    then show ?thesis using c by auto
  next
    assume "e \<in> set (descendants (remove_named nm c))"
    from Tag.IH[OF c(1) this] show ?thesis using c(1) by auto
  qed
qed

lemma remove_elements_names:
  "e \<in> set (descendants (remove_elements tags soup)) \<Longrightarrow>
   (\<forall>nm \<in> set tags. tag_name e \<noteq> Some nm) \<and>
   (\<exists>e' \<in> set (descendants soup). tag_name e' = tag_name e)"
proof (induction tags arbitrary: soup e)
  case Nil
  then show ?case by (auto simp: remove_elements_def)
next
  case (Cons nm tags)
  from Cons.prems have "e \<in> set (descendants (remove_elements tags (remove_named nm soup)))"
    by (simp add: remove_elements_def)
  from Cons.IH[OF this] obtain e1 where
    a: "\<forall>nm \<in> set tags. tag_name e \<noteq> Some nm" and
    b: "e1 \<in> set (descendants (remove_named nm soup))" "tag_name e1 = tag_name e"
    by blast
  from remove_named_names[OF b(1)] b(2) a show ?case by auto
qed


text \<open>
  Claim C8 says that the traversal visits element and text nodes and that every text node
  adds its content to the output. In the document below the text node \<open>hello\<close> is a node
  of the tree after the removal, it is not among the nodes that \<open>find_all()\<close> gives to the
  loop, and the output is empty.
\<close>

theorem text_node_not_visited_counterexample:
  "NavigableString ''hello'' \<in>
     set (descendants (remove_elements default_tags_to_remove document_plain_text)) \<and>
   NavigableString ''hello'' \<notin>
     set (find_all (remove_elements default_tags_to_remove document_plain_text)) \<and>
   get_markdown_content default_tags_to_remove document_plain_text = Inr []"
  by code_simp

text \<open>
  Claim C8, amended. \<open>convert_to_markdown\<close> returns a text node as it is, but the loop of
  \<open>get_markdown_content\<close> runs over the elements only: every node it visits is an element
  whose name is none of the removed names, every element left after the removal is
  visited, and the conversion succeeds with a result exactly when every element converts,
  the result being the concatenation of their conversions in document order. A text node
  reaches the output only through the text of an element that has a rule.
\<close>

theorem markdown_visits_elements_only:
  "convert_to_markdown (NavigableString s) = Inr s \<and>
   (\<forall>e \<in> set (find_all (remove_elements tags soup)).
      is_tag e \<and> (\<forall>nm \<in> set tags. tag_name e \<noteq> Some nm)) \<and>
   (\<forall>e \<in> set (descendants (remove_elements tags soup)).
      is_tag e \<longrightarrow> e \<in> set (find_all (remove_elements tags soup))) \<and>
   (get_markdown_content tags soup = Inr md \<longleftrightarrow>
      (\<exists>mds. map convert_to_markdown
                (filter is_tag (descendants (remove_elements tags soup))) = map Inr mds \<and>
             md = concat mds))"
proof (intro conjI ballI impI)
  show "convert_to_markdown (NavigableString s) = Inr s" by simp
next
  fix e assume e: "e \<in> set (find_all (remove_elements tags soup))"
  then show "is_tag e" using find_all_tags_only by blast
  from e have "e \<in> set (descendants (remove_elements tags soup))"
    using find_all_tags_only by blast
  from remove_elements_names[OF this]
  show "\<And>nm. nm \<in> set tags \<Longrightarrow> tag_name e \<noteq> Some nm" by blast
next
  fix e assume "e \<in> set (descendants (remove_elements tags soup))" and "is_tag e"
  then show "e \<in> set (find_all (remove_elements tags soup))" by (simp add: find_all_def)
next
  show "get_markdown_content tags soup = Inr md \<longleftrightarrow>
      (\<exists>mds. map convert_to_markdown
                (filter is_tag (descendants (remove_elements tags soup))) = map Inr mds \<and>
             md = concat mds)"
    using convert_elements_concat[of "[]" "find_all (remove_elements tags soup)" md]
    by (simp add: get_markdown_content_def find_all_def)
qed

text \<open>
  A document with a header, a loose text node, a secondary heading and a paragraph: the
  header is gone, the loose text is not in the output.
\<close>

theorem markdown_visits_elements_only_witness:
  "convert_to_markdown (NavigableString ''loose'') = Inr ''loose'' \<and>
   Tag ''h2'' [] [NavigableString ''Part''] \<in>
     set (find_all (remove_elements default_tags_to_remove document_mixed)) \<and>
   is_tag (Tag ''h2'' [] [NavigableString ''Part'']) \<and>
   tag_name (Tag ''h2'' [] [NavigableString ''Part'']) \<noteq> Some ''header'' \<and>
   Tag ''h2'' [] [NavigableString ''Menu''] \<notin>
     set (find_all (remove_elements default_tags_to_remove document_mixed)) \<and>
   map convert_to_markdown
     (filter is_tag (descendants (remove_elements default_tags_to_remove document_mixed))) =
     map Inr [[], [CHR 0x0A, CHR 0x0A] @ ''## Part'' @ [CHR 0x0A, CHR 0x0A], '' hi ''] \<and>
   get_markdown_content default_tags_to_remove document_mixed =
     Inr ([CHR 0x0A, CHR 0x0A] @ ''## Part'' @ [CHR 0x0A, CHR 0x0A] @ '' hi '')"
proof -
  let ?mds = "[[], [CHR 0x0A, CHR 0x0A] @ ''## Part'' @ [CHR 0x0A, CHR 0x0A], '' hi '']"
  have v: "Tag ''h2'' [] [NavigableString ''Part''] \<in>
     set (find_all (remove_elements default_tags_to_remove document_mixed))"
    by code_simp
  have d: "Tag ''h2'' [] [NavigableString ''Part''] \<in>
     set (descendants (remove_elements default_tags_to_remove document_mixed))"
    by code_simp
  have h: "''header'' \<in> set default_tags_to_remove"
    by (simp add: default_tags_to_remove_def)
  have n: "Tag ''h2'' [] [NavigableString ''Menu''] \<notin>
     set (find_all (remove_elements default_tags_to_remove document_mixed))"
    by code_simp
  have m: "map convert_to_markdown
     (filter is_tag (descendants (remove_elements default_tags_to_remove document_mixed))) =
     map Inr ?mds"
    by code_simp
  note inst = markdown_visits_elements_only
    [of "''loose''" default_tags_to_remove document_mixed "concat ?mds"]
  from inst v h have a: "is_tag (Tag ''h2'' [] [NavigableString ''Part'']) \<and>
      tag_name (Tag ''h2'' [] [NavigableString ''Part'']) \<noteq> Some ''header''"
    by blast
  from inst d have "Tag ''h2'' [] [NavigableString ''Part''] \<in>
     set (find_all (remove_elements default_tags_to_remove document_mixed))"
    by simp
  from inst m have g: "get_markdown_content default_tags_to_remove document_mixed =
      Inr (concat ?mds)"
    by blast
  from inst have t: "convert_to_markdown (NavigableString ''loose'') = Inr ''loose''"
    by blast
  show ?thesis using t v a n m g by (simp del: convert_to_markdown.simps)
qed

section \<open>The date of the headline, there and back\<close>

lemma digit_val_digit_char: "k < 10 \<Longrightarrow> digit_val (digit_char k) = k"
proof -
  assume "k < 10"
  then have "k \<in> {0,1,2,3,4,5,6,7,8,9}" by auto
  then show ?thesis by (auto simp: digit_char_def digit_val_def)
qed

lemma is_digit_not_space: "is_digit c \<Longrightarrow> \<not> is_space c"
  by (auto simp: is_digit_def is_space_def)

lemma is_digit_not_sign: "is_digit c \<Longrightarrow> c \<noteq> CHR ''-'' \<and> c \<noteq> CHR ''+'' \<and> c \<noteq> CHR ''_''"
  by (auto simp: is_digit_def)

lemma str_nat_nonempty: "str_nat n \<noteq> []"
  by (subst str_nat.simps) simp

lemma foldl_str_nat:
  "foldl (\<lambda>acc c. 10 * acc + digit_val c) 0 (str_nat n) = n"
proof (induction n rule: str_nat.induct)
  case (1 n)
  show ?case
  proof (cases "n < 10")
    case True
    then show ?thesis by (simp add: str_nat.simps[of n] digit_val_digit_char)
  next
    case False
    then have "foldl (\<lambda>acc c. 10 * acc + digit_val c) 0 (str_nat (n div 10)) = n div 10"
      using 1 by simp
    then show ?thesis using False
      by (simp add: str_nat.simps[of n] digit_val_digit_char)
  qed
qed

lemma filter_digits_id: "\<forall>c \<in> set s. is_digit c \<Longrightarrow> filter is_digit s = s"
  by (induction s) auto

lemma digits_value_str_nat: "digits_value (str_nat n) = n"
  by (simp add: digits_value_def filter_digits_id[OF str_nat_digits] foldl_str_nat)

lemma digits_grouped_all_digits:
  "s \<noteq> [] \<Longrightarrow> \<forall>c \<in> set s. is_digit c \<Longrightarrow> digits_grouped s"
proof (induction s rule: digits_grouped.induct)
  case 1
  then show ?case by simp
next
  case (2 c)
  then show ?case by simp
next
  case (3 c d cs)
  then have "d \<noteq> CHR ''_''" using is_digit_not_sign[of d] by simp
  then show ?case using 3 by simp
qed

lemma py_strip_no_space: "\<forall>c \<in> set s. \<not> is_space c \<Longrightarrow> py_strip s = s"
proof -
  assume a: "\<forall>c \<in> set s. \<not> is_space c"
  have "dropWhile is_space s = s" using a by (cases s) auto
  moreover have "dropWhile is_space (rev s) = rev s" using a by (cases "rev s") (auto dest: arg_cong[where f=set])
  ultimately show ?thesis by (simp add: py_strip_def)
qed

lemma py_int_str_nat: "py_int (str_nat n) = Inr (int n)"
proof -
  obtain c cs where s: "str_nat n = c # cs" using str_nat_nonempty[of n] by (cases "str_nat n") auto
  have dg: "\<forall>c \<in> set (str_nat n). is_digit c" by (rule str_nat_digits)
  then have ns: "\<forall>c \<in> set (str_nat n). \<not> is_space c" using is_digit_not_space by blast
  have st: "py_strip (str_nat n) = c # cs" using py_strip_no_space[OF ns] s by simp
  have "is_digit c" using dg s by simp
  then have c: "c \<noteq> CHR ''-''" "c \<noteq> CHR ''+''" using is_digit_not_sign by blast+
  have "digits_grouped (str_nat n)" using str_nat_nonempty dg by (rule digits_grouped_all_digits)
  then have "py_int_unsigned (c # cs) = Inr (int n)"
    using s digits_value_str_nat[of n] by (simp add: py_int_unsigned_def)
  then show ?thesis using st c by (simp add: py_int_def)
qed

lemma py_split_from_token:
  "\<forall>c \<in> set w. \<not> is_space c \<Longrightarrow> py_split_from cur (w @ rest) = py_split_from (cur @ w) rest"
  by (induction w arbitrary: cur) auto

lemma py_split_three:
  assumes "a \<noteq> []" "\<forall>c \<in> set a. \<not> is_space c"
    and "b \<noteq> []" "\<forall>c \<in> set b. \<not> is_space c"
    and "c \<noteq> []" "\<forall>x \<in> set c. \<not> is_space x"
  shows "py_split (a @ '' '' @ b @ '' '' @ c) = [a, b, c]"
proof -
  have sp: "is_space CHR '' ''" by (simp add: is_space_def)
  have "py_split (a @ '' '' @ b @ '' '' @ c) = py_split_from a ('' '' @ b @ '' '' @ c)"
    using py_split_from_token[OF assms(2), of "[]"] by (simp add: py_split_def)
  also have "\<dots> = a # py_split_from [] (b @ '' '' @ c)"
    using assms(1) sp by simp
  also have "py_split_from [] (b @ '' '' @ c) = py_split_from b ('' '' @ c)"
    using py_split_from_token[OF assms(4), of "[]"] by simp
  also have "\<dots> = b # py_split_from [] (c @ [])"
    using assms(3) sp by simp
  also have "py_split_from [] (c @ []) = py_split_from c []"
    using py_split_from_token[OF assms(6), of "[]" "[]"] by simp
  also have "\<dots> = [c]" using assms(5) by simp
  finally show ?thesis .
qed

lemma list_index_first:
  "m < length names \<Longrightarrow> names ! m \<notin> set (take m names) \<Longrightarrow> list_index names (names ! m) = Inr m"
proof (induction names arbitrary: m)
  case Nil
  then show ?case by simp
next
  case (Cons x xs)
  show ?case
  proof (cases m)
    case 0
    then show ?thesis by simp
  next
    case (Suc k)
    then have "k < length xs" "xs ! k \<notin> set (take k xs)" "x \<noteq> xs ! k"
      using Cons.prems by auto
    then show ?thesis using Cons.IH[of k] Suc by simp
  qed
qed

lemma date_new_valid:
  "valid_date d \<Longrightarrow> date_new (int (year d)) (int (month d)) (int (day d)) = Inr d"
proof -
  assume v: "valid_date d"
  obtain y m dd where d: "d = \<lparr>year = y, month = m, day = dd\<rparr>" by (cases d) simp
  show ?thesis using v unfolding d by (simp add: date_new_def)
qed

text \<open>
  Claim C3. For every valid calendar date \<open>d\<close> and every month table that holds one word
  per month number, first found at that number, \<open>transform_date_to_date_in_headline\<close>
  returns a headline text for \<open>d\<close>, and \<open>transform_date_in_headline_to_date\<close> applied to
  that text returns \<open>d\<close>.
\<close>

theorem headline_date_roundtrip:
  assumes "valid_date d" and "month_table_usable names"
  shows "\<exists>s. transform_date_to_date_in_headline names d = Inr s \<and>
             transform_date_in_headline_to_date names s = Inr d"
proof -
  let ?name = "names ! month d"
  let ?s = "str_nat (day d) @ ''. '' @ ?name @ '' '' @ str_nat (year d)"
  have m: "month d \<in> {1..12}" using assms(1) by (simp add: valid_date_def)
  from assms(2) m have len: "month d < length names"
    and ne: "?name \<noteq> []"
    and nsp: "\<forall>c \<in> set ?name. \<not> is_space c"
    and first: "?name \<notin> set (take (month d) names)"
    unfolding month_table_usable_def by blast+
  have to: "transform_date_to_date_in_headline names d = Inr ?s"
    using len by (simp add: transform_date_to_date_in_headline_def list_get_def)
  have dsp: "\<forall>c \<in> set (str_nat n). \<not> is_space c" for n
    using str_nat_digits[of n] is_digit_not_space by blast
  have dot: "\<not> is_space CHR ''.''" by (simp add: is_space_def)
  have a1: "str_nat (day d) @ ''.'' \<noteq> []" by simp
  have a2: "\<forall>c \<in> set (str_nat (day d) @ ''.''). \<not> is_space c" using dsp dot by simp
  have "py_split ((str_nat (day d) @ ''.'') @ '' '' @ ?name @ '' '' @ str_nat (year d)) =
      [str_nat (day d) @ ''.'', ?name, str_nat (year d)]"
    using a1 a2 ne nsp str_nat_nonempty dsp by (rule py_split_three)
  then have sp: "py_split ?s = [str_nat (day d) @ ''.'', ?name, str_nat (year d)]" by simp
  have bl: "butlast (str_nat (day d) @ ''.'') = str_nat (day d)" by (simp add: butlast_append)
  have ix: "list_index names ?name = Inr (month d)" using len first by (rule list_index_first)
  have "transform_date_in_headline_to_date names ?s = Inr d"
    unfolding transform_date_in_headline_to_date_def sp
    by (simp add: py_int_str_nat ix date_new_valid[OF assms(1)])
  with to show ?thesis by blast
qed

text \<open>The fifth of March 2024 and the leap day of 2024, with the German month names.\<close>

theorem headline_date_roundtrip_witness:
  "valid_date \<lparr>year = 2024, month = 3, day = 5\<rparr> \<and>
   valid_date \<lparr>year = 2024, month = 2, day = 29\<rparr> \<and>
   month_table_usable german_month_names \<and>
   transform_date_to_date_in_headline german_month_names \<lparr>year = 2024, month = 3, day = 5\<rparr> =
     Inr (''5. M'' @ [CHR 0xC3, CHR 0xA4] @ ''rz 2024'') \<and>
   transform_date_in_headline_to_date german_month_names
     (''5. M'' @ [CHR 0xC3, CHR 0xA4] @ ''rz 2024'') =
     Inr \<lparr>year = 2024, month = 3, day = 5\<rparr> \<and>
   transform_date_to_date_in_headline german_month_names \<lparr>year = 2024, month = 2, day = 29\<rparr> =
     Inr ''29. Februar 2024'' \<and>
   transform_date_in_headline_to_date german_month_names ''29. Februar 2024'' =
     Inr \<lparr>year = 2024, month = 2, day = 29\<rparr>"
proof -
  have v: "valid_date \<lparr>year = 2024, month = 3, day = 5\<rparr>" by code_simp
  have w: "valid_date \<lparr>year = 2024, month = 2, day = 29\<rparr>" by code_simp
  have t: "month_table_usable german_month_names" by code_simp
  have f: "transform_date_to_date_in_headline german_month_names
      \<lparr>year = 2024, month = 3, day = 5\<rparr> =
     Inr (''5. M'' @ [CHR 0xC3, CHR 0xA4] @ ''rz 2024'')"
    by code_simp
  have g: "transform_date_to_date_in_headline german_month_names
      \<lparr>year = 2024, month = 2, day = 29\<rparr> = Inr ''29. Februar 2024''"
    by code_simp
  from headline_date_roundtrip [OF v t] obtain s where
    "transform_date_to_date_in_headline german_month_names
       \<lparr>year = 2024, month = 3, day = 5\<rparr> = Inr s"
    and b: "transform_date_in_headline_to_date german_month_names s =
       Inr \<lparr>year = 2024, month = 3, day = 5\<rparr>"
    by blast
  with f have "s = ''5. M'' @ [CHR 0xC3, CHR 0xA4] @ ''rz 2024''" by simp
  with b have r1: "transform_date_in_headline_to_date german_month_names
     (''5. M'' @ [CHR 0xC3, CHR 0xA4] @ ''rz 2024'') =
     Inr \<lparr>year = 2024, month = 3, day = 5\<rparr>"
    by simp
  from headline_date_roundtrip [OF w t] obtain s' where
    "transform_date_to_date_in_headline german_month_names
       \<lparr>year = 2024, month = 2, day = 29\<rparr> = Inr s'"
    and c: "transform_date_in_headline_to_date german_month_names s' =
       Inr \<lparr>year = 2024, month = 2, day = 29\<rparr>"
    by blast
  with g have "s' = ''29. Februar 2024''" by simp
  with c have r2: "transform_date_in_headline_to_date german_month_names ''29. Februar 2024'' =
     Inr \<lparr>year = 2024, month = 2, day = 29\<rparr>"
    by simp
  show ?thesis using v w t f g r1 r2 by simp
qed

end
